theory Spec2Isabelle
  imports Main "HOL-Library.Sublist"
begin

section \<open>Python values used by the runner scripts\<close>

text \<open>
  The two runner scripts (\<^verbatim>\<open>scripts/elevenlabs_agent_runner.py\<close> and
  \<^verbatim>\<open>scripts/minimal_sdk_runner.py\<close>) work on values read by \<^verbatim>\<open>json.load\<close>.
  Such a value is null, a boolean, an integer, a string, a list or a dict with string
  keys. Python dicts keep insertion order and have unique keys, so a dict is an
  association list whose keys are distinct (\<open>wf_json\<close> below). Floating-point
  numbers are outside the model. Strings are byte strings (UTF-8), as \<^typ>\<open>string\<close>.
\<close>

datatype json =
    JNull
  | JBool bool
  | JInt int
  | JStr string
  | JList "json list"
  | JObj "(string \<times> json) list"

type_synonym snapshot = "(string \<times> json) list"
type_synonym string_map = "(string \<times> string) list"

subsection \<open>Decimal text of an integer: \<^verbatim>\<open>str(n)\<close>, \<^verbatim>\<open>f"{n}"\<close>\<close>

definition digit_char :: "nat \<Rightarrow> char" where
  "digit_char d = char_of (48 + d)"

fun nat_digits :: "nat \<Rightarrow> string" where
  "nat_digits n = (if n < 10 then [digit_char n] else nat_digits (n div 10) @ [digit_char (n mod 10)])"

declare nat_digits.simps [simp del]

definition py_str_int :: "int \<Rightarrow> string" where
  "py_str_int i = (if i < 0 then CHR ''-'' # nat_digits (nat (- i)) else nat_digits (nat i))"

subsection \<open>\<^verbatim>\<open>sep.join(items)\<close>\<close>

fun py_join :: "string \<Rightarrow> string list \<Rightarrow> string" where
  "py_join sep [] = []"
| "py_join sep [x] = x"
| "py_join sep (x # y # ys) = x @ sep @ py_join sep (y # ys)"

section \<open>The memory watcher: changed keys and the summary text\<close>

text \<open>
  \<^verbatim>\<open>d.get(k, "")\<close> on a string map.
\<close>

definition get_or_empty :: "string_map \<Rightarrow> string \<Rightarrow> string" where
  "get_or_empty m k = (case map_of m k of None \<Rightarrow> [] | Some v \<Rightarrow> v)"

text \<open>
  \<^verbatim>\<open>changed = [k for k in curr_vars.keys()
             if curr_vars.get(k, "") != last_vars.get(k, "")]\<close>
\<close>

definition changed_keys :: "string_map \<Rightarrow> string_map \<Rightarrow> string list" where
  "changed_keys curr_vars last_vars =
     filter (\<lambda>k. get_or_empty curr_vars k \<noteq> get_or_empty last_vars k) (map fst curr_vars)"

text \<open>
  \<^verbatim>\<open>summary = "Context update: " + ", ".join(changed[:8])
  if len(changed) > 8:
      summary += f" (+{len(changed)-8} more)"\<close>
\<close>

definition summary_of :: "string list \<Rightarrow> string" where
  "summary_of changed =
     (let summary = ''Context update: '' @ py_join '', '' (take 8 changed)
      in if length changed > 8
         then summary @ '' (+'' @ py_str_int (int (length changed) - 8) @ '' more)''
         else summary)"


section \<open>Stringification: \<^verbatim>\<open>to_string_map\<close>\<close>

text \<open>
  Exceptions are values: the class name and the message (\<^verbatim>\<open>str(e)\<close>).
\<close>

datatype error = Exc (exc_class: string) (exc_msg: string)

text \<open>
  \<^verbatim>\<open>json.dumps(v, ensure_ascii=False)\<close>: the standard encoder with its default
  separators \<^verbatim>\<open>", "\<close> and \<^verbatim>\<open>": "\<close>. Inside a string it escapes the quote, the
  backslash and the control characters below 0x20 (short forms for backspace, form
  feed, newline, carriage return and tab, \<^verbatim>\<open>\u00XX\<close> for the others); every other
  character is copied.
\<close>

definition hex_digit :: "nat \<Rightarrow> char" where
  "hex_digit d = (if d < 10 then char_of (48 + d) else char_of (87 + d))"

definition escape_char :: "char \<Rightarrow> string" where
  "escape_char c =
     (if c = CHR 0x22 then [CHR 0x5C, CHR 0x22]
      else if c = CHR 0x5C then [CHR 0x5C, CHR 0x5C]
      else if c = CHR 0x0A then [CHR 0x5C, CHR ''n'']
      else if c = CHR 0x0D then [CHR 0x5C, CHR ''r'']
      else if c = CHR 0x09 then [CHR 0x5C, CHR ''t'']
      else if c = CHR 0x08 then [CHR 0x5C, CHR ''b'']
      else if c = CHR 0x0C then [CHR 0x5C, CHR ''f'']
      else if (of_char c :: nat) < 32
        then [CHR 0x5C, CHR ''u'', CHR ''0'', CHR ''0'',
              hex_digit (of_char c div 16), hex_digit (of_char c mod 16)]
      else [c])"

definition encode_str :: "string \<Rightarrow> string" where
  "encode_str s = CHR 0x22 # concat (map escape_char s) @ [CHR 0x22]"

fun py_json_dumps :: "json \<Rightarrow> string" where
  "py_json_dumps JNull = ''null''"
| "py_json_dumps (JBool b) = (if b then ''true'' else ''false'')"
| "py_json_dumps (JInt i) = py_str_int i"
| "py_json_dumps (JStr s) = encode_str s"
| "py_json_dumps (JList xs) = ''['' @ py_join '', '' (map py_json_dumps xs) @ '']''"
| "py_json_dumps (JObj kvs) =
     ''{'' @ py_join '', '' (map (\<lambda>kv. encode_str (fst kv) @ '': '' @ py_json_dumps (snd kv)) kvs) @ ''}''"

text \<open>
  One value of \<^verbatim>\<open>to_string_map\<close>:
  \<^verbatim>\<open>if isinstance(v, (dict, list)): json.dumps(v, ensure_ascii=False)
  elif v is None: ""
  else: str(v)\<close>
\<close>

fun stringify :: "json \<Rightarrow> string" where
  "stringify (JList xs) = py_json_dumps (JList xs)"
| "stringify (JObj kvs) = py_json_dumps (JObj kvs)"
| "stringify JNull = []"
| "stringify (JBool b) = (if b then ''True'' else ''False'')"
| "stringify (JInt i) = py_str_int i"
| "stringify (JStr s) = s"

text \<open>
  \<^verbatim>\<open>to_string_map(d)\<close> iterates \<^verbatim>\<open>d.items()\<close>; a value that is not a dict has no
  \<^verbatim>\<open>items\<close> and the call raises.
\<close>

fun to_string_map :: "json \<Rightarrow> error + string_map" where
  "to_string_map (JObj d) = Inr (map (\<lambda>kv. (fst kv, stringify (snd kv))) d)"
| "to_string_map v = Inl (Exc ''AttributeError'' ''object has no attribute items'')"

section \<open>Reading JSON text back: \<^verbatim>\<open>json.loads\<close>\<close>

text \<open>
  The standard decoder, for the values of the model: the literals \<^verbatim>\<open>null\<close>,
  \<^verbatim>\<open>true\<close> and \<^verbatim>\<open>false\<close>, integers, strings with their escapes, arrays and
  objects, with white space (space, tab, line feed, carriage return) where the grammar
  allows it. The result \<open>None\<close> stands for the decoder's exception, and also for the
  inputs outside the model: a number with a fraction or an exponent, and a
  \<^verbatim>\<open>\uXXXX\<close> escape of a code point above 0x7F.

  The decoder's recursion follows the nesting of the text, so the functions take fuel,
  and \<open>json_loads\<close> gives them more than the length of the text.
\<close>

definition is_ws :: "char \<Rightarrow> bool" where
  "is_ws c = (c = CHR '' '' \<or> c = CHR 0x09 \<or> c = CHR 0x0A \<or> c = CHR 0x0D)"

definition skip_ws :: "string \<Rightarrow> string" where
  "skip_ws s = dropWhile is_ws s"




definition hex_value :: "char \<Rightarrow> nat option" where
  "hex_value c =
     (let n = (of_char c :: nat)
      in if 48 \<le> n \<and> n \<le> 57 then Some (n - 48)
         else if 97 \<le> n \<and> n \<le> 102 then Some (n - 87)
         else if 65 \<le> n \<and> n \<le> 70 then Some (n - 55)
         else None)"

definition hex4 :: "char \<Rightarrow> char \<Rightarrow> char \<Rightarrow> char \<Rightarrow> nat option" where
  "hex4 a b c d =
     (case (hex_value a, hex_value b, hex_value c, hex_value d) of
        (Some w, Some x, Some y, Some z) \<Rightarrow> Some (((w * 16 + x) * 16 + y) * 16 + z)
      | _ \<Rightarrow> None)"

definition unescape :: "char \<Rightarrow> char option" where
  "unescape e =
     (if e = CHR 0x22 then Some (CHR 0x22)
      else if e = CHR 0x5C then Some (CHR 0x5C)
      else if e = CHR ''/'' then Some (CHR ''/'')
      else if e = CHR ''b'' then Some (CHR 0x08)
      else if e = CHR ''f'' then Some (CHR 0x0C)
      else if e = CHR ''n'' then Some (CHR 0x0A)
      else if e = CHR ''r'' then Some (CHR 0x0D)
      else if e = CHR ''t'' then Some (CHR 0x09)
      else None)"

text \<open>
  A string after its opening quote, up to the closing quote. A control character
  below 0x20 is not allowed unescaped.
\<close>

fun parse_string :: "string \<Rightarrow> (string \<times> string) option" where
  "parse_string [] = None"
| "parse_string (c # cs) =
     (if c = CHR 0x22 then Some ([], cs)
      else if c = CHR 0x5C then
        (case cs of
           [] \<Rightarrow> None
         | e # es \<Rightarrow>
             if e = CHR ''u'' then
               (case es of
                  h1 # h2 # h3 # h4 # r \<Rightarrow>
                    (case hex4 h1 h2 h3 h4 of
                       None \<Rightarrow> None
                     | Some code \<Rightarrow>
                         if code < 128 then
                           (case parse_string r of
                              None \<Rightarrow> None
                            | Some (str, rest) \<Rightarrow> Some (char_of code # str, rest))
                         else None)
                | _ \<Rightarrow> None)
             else
               (case unescape e of
                  None \<Rightarrow> None
                | Some ch \<Rightarrow>
                    (case parse_string es of
                       None \<Rightarrow> None
                     | Some (str, rest) \<Rightarrow> Some (ch # str, rest))))
      else if (of_char c :: nat) < 32 then None
      else
        (case parse_string cs of
           None \<Rightarrow> None
         | Some (str, rest) \<Rightarrow> Some (c # str, rest)))"









section \<open>Prompt rendering: \<^verbatim>\<open>render_prompt\<close>\<close>

text \<open>
  \<^verbatim>\<open>s.replace(old, new)\<close>: the occurrences of \<open>old\<close> are found from the left and do
  not overlap; an empty \<open>old\<close> matches before every character and at the end.
\<close>

function py_replace :: "string \<Rightarrow> string \<Rightarrow> string \<Rightarrow> string" where
  "py_replace old new s =
     (if old = [] then new @ concat (map (\<lambda>c. c # new) s)
      else if prefix old s then new @ py_replace old new (drop (length old) s)
      else (case s of [] \<Rightarrow> [] | c # cs \<Rightarrow> c # py_replace old new cs))"
  by pat_completeness auto
termination
  by (relation "measure (\<lambda>(old, new, s). length s)") (auto simp: prefix_def)

declare py_replace.simps [simp del]

text \<open>
  The regular expression \<^verbatim>\<open>{{[^{}]+}}\<close> at the head of a string: two opening braces,
  the longest run of characters that are not braces (at least one), two closing braces.
  The result is the text after the match.
\<close>

definition not_brace :: "char \<Rightarrow> bool" where
  "not_brace c = (c \<noteq> CHR ''{'' \<and> c \<noteq> CHR ''}'')"

definition match_placeholder :: "string \<Rightarrow> string option" where
  "match_placeholder s =
     (if prefix ''{{'' s
      then (let body = takeWhile not_brace (drop 2 s); rest = dropWhile not_brace (drop 2 s)
            in if body \<noteq> [] \<and> prefix ''}}'' rest then Some (drop 2 rest) else None)
      else None)"

text \<open>
  \<^verbatim>\<open>re.sub(r"{{[^{}]+}}", "", out)\<close>: one pass from the left; a match is deleted and
  the scan goes on after it, any other character is kept.
\<close>

function re_sub_placeholders :: "string \<Rightarrow> string" where
  "re_sub_placeholders s =
     (case s of
        [] \<Rightarrow> []
      | c # cs \<Rightarrow>
          (case match_placeholder s of
             Some rest \<Rightarrow> re_sub_placeholders rest
           | None \<Rightarrow> c # re_sub_placeholders cs))"
  by pat_completeness auto
termination
proof (relation "measure length")
  fix s :: string and c cs rest
  assume "s = c # cs" and m: "match_placeholder s = Some rest"
  from m have "rest = drop 2 (dropWhile not_brace (drop 2 s))"
    by (auto simp: match_placeholder_def Let_def split: if_splits)
  moreover have "length (dropWhile not_brace (drop 2 s)) \<le> length (drop 2 s)"
    by (rule length_dropWhile_le)
  moreover from m have "2 \<le> length s"
    by (auto simp: match_placeholder_def prefix_def split: if_splits)
  ultimately show "(rest, s) \<in> measure length"
    by simp
qed auto

declare re_sub_placeholders.simps [simp del]

definition placeholder :: "string \<Rightarrow> string" where
  "placeholder k = ''{{'' @ k @ ''}}''"

text \<open>
  \<^verbatim>\<open>out = template_text or ""
  for k, v in variables.items():
      out = out.replace("{{" + k + "}}", v)
  out = re.sub(r"{{[^{}]+}}", "", out)\<close>
  The variables are the dict in its iteration order. \<^verbatim>\<open>minimal_sdk_runner.py\<close> has
  the same loop on the text it reads from the template file.
\<close>

fun substitute_all :: "string_map \<Rightarrow> string \<Rightarrow> string" where
  "substitute_all [] out = out"
| "substitute_all ((k, v) # variables) out = substitute_all variables (py_replace (placeholder k) v out)"

definition render_prompt :: "string \<Rightarrow> string_map \<Rightarrow> string" where
  "render_prompt template_text variables = re_sub_placeholders (substitute_all variables template_text)"



section \<open>Templates as the specification reads them\<close>

text \<open>
  The specification speaks of a template as text with placeholder tokens in it. A
  template in that sense is a list of segments: literal text, and placeholders
  \<^verbatim>\<open>{{key}}\<close>. It is well formed when no literal and no key has a brace character in
  it and no key is empty; a string map is plain when no key and no value has a brace
  character in it.
\<close>

datatype segment = Lit string | Ph string

fun segment_text :: "segment \<Rightarrow> string" where
  "segment_text (Lit s) = s"
| "segment_text (Ph k) = placeholder k"

definition template_of :: "segment list \<Rightarrow> string" where
  "template_of segs = concat (map segment_text segs)"

definition brace_free :: "string \<Rightarrow> bool" where
  "brace_free s = list_all not_brace s"

fun wf_segment :: "segment \<Rightarrow> bool" where
  "wf_segment (Lit s) = brace_free s"
| "wf_segment (Ph k) = (k \<noteq> [] \<and> brace_free k)"

definition plain_map :: "string_map \<Rightarrow> bool" where
  "plain_map variables = list_all (\<lambda>kv. brace_free (fst kv) \<and> brace_free (snd kv)) variables"

text \<open>
  Rendering as the specification words it: each placeholder whose key is in the context
  becomes that key's value, each placeholder whose key is absent becomes the empty
  string, and the literal text stays. This definition follows the specification, not
  the code; the theorem for claim C6 compares it with \<open>render_prompt\<close>.
\<close>

fun render_segment_spec :: "string_map \<Rightarrow> segment \<Rightarrow> string" where
  "render_segment_spec variables (Lit s) = s"
| "render_segment_spec variables (Ph k) = (case map_of variables k of None \<Rightarrow> [] | Some v \<Rightarrow> v)"

definition render_spec :: "segment list \<Rightarrow> string_map \<Rightarrow> string" where
  "render_spec segs variables = concat (map (render_segment_spec variables) segs)"

text \<open>
  For the proofs: the template after the placeholders of one key have been filled in.
\<close>

fun fill_segment :: "string \<Rightarrow> string \<Rightarrow> segment \<Rightarrow> segment" where
  "fill_segment k v (Lit s) = Lit s"
| "fill_segment k v (Ph k') = (if k' = k then Lit v else Ph k')"

section \<open>The session: outbound messages, truthiness, the transport\<close>

text \<open>
  The identifiers (conversation id, tool call id, tool name) and the texts are strings
  where present; \<open>None\<close> is Python's \<^verbatim>\<open>None\<close> (an absent key read with
  \<^verbatim>\<open>.get\<close>, or JSON null). A ping's event id is an integer where present.
\<close>

datatype tool_result =
    MemoryResult string_map
  | HistoryResult "(string \<times> string) list"
  | ErrorText string

datatype outbound =
    Pong int
  | ContextualUpdate string "string option"
  | ClientToolResult "string option" tool_result bool

text \<open>
  Python's truth value of an optional string: \<^verbatim>\<open>None\<close> and \<^verbatim>\<open>""\<close> are false.
\<close>

fun truthy :: "string option \<Rightarrow> bool" where
  "truthy None = False"
| "truthy (Some s) = (s \<noteq> [])"

text \<open>
  \<^verbatim>\<open>await ws.send(json.dumps(payload))\<close>: the transport either takes the message
  (\<open>None\<close>) or raises. It is a parameter \<open>send\<close> of every step below.
\<close>

type_synonym transport = "outbound \<Rightarrow> error option"

text \<open>
  \<^verbatim>\<open>s.strip()\<close>: the ASCII white space of \<^verbatim>\<open>str.isspace\<close> (tab, line feed, vertical
  tab, form feed, carriage return, 0x1C to 0x1F, space) is removed at both ends.
\<close>

definition is_space :: "char \<Rightarrow> bool" where
  "is_space c = ((of_char c :: nat) \<in> {9, 10, 11, 12, 13, 28, 29, 30, 31, 32})"

definition py_strip :: "string \<Rightarrow> string" where
  "py_strip s = rev (dropWhile is_space (rev (dropWhile is_space s)))"

section \<open>The memory watcher tick: \<^verbatim>\<open>watch_memory_and_send_contextual_updates\<close>\<close>

text \<open>
  The watcher's variables \<^verbatim>\<open>last_mtime\<close> and \<^verbatim>\<open>last_vars\<close>, and what one tick
  observes of the memory file: whether it exists, its modification time (only compared,
  so a natural number stands for it) and the outcome of \<^verbatim>\<open>load_memory_buffer(cfg)\<close>,
  which raises on an unreadable file or invalid JSON.
\<close>

record mem_watch =
  last_mtime :: nat
  last_vars :: string_map

record mem_obs =
  mem_exists :: bool
  mem_mtime :: nat
  mem_json :: "error + json"

text \<open>
  The task runs when \<^verbatim>\<open>watch_memory_updates\<close> and \<^verbatim>\<open>send_contextual_updates\<close>
  are true and a path is configured; what follows is one tick of the running task. The
  session variable \<^verbatim>\<open>active_conversation_id\<close> is read as it stands at the tick: the
  receive loop assigns it, the watchers only read it.

  One pass of the \<^verbatim>\<open>while True\<close> body after the sleep. Every exception inside the
  \<^verbatim>\<open>try\<close> is caught and the loop goes on with the variables as they stand
  (\<^verbatim>\<open>last_mtime\<close> is already assigned by then, \<^verbatim>\<open>last_vars\<close> is not). The result is
  the new variables and the messages put on the wire.
\<close>

definition memory_tick ::
  "transport \<Rightarrow> string option \<Rightarrow> mem_watch \<Rightarrow> mem_obs \<Rightarrow> mem_watch \<times> outbound list" where
  "memory_tick send active_conversation_id st obs =
     (if \<not> mem_exists obs then (st, [])
      else if mem_mtime obs \<le> last_mtime st then (st, [])
      else
        (let st1 = st\<lparr>last_mtime := mem_mtime obs\<rparr> in
         case mem_json obs of
           Inl e \<Rightarrow> (st1, [])
         | Inr current_mem \<Rightarrow>
             (case to_string_map current_mem of
                Inl e \<Rightarrow> (st1, [])
              | Inr curr_vars \<Rightarrow>
                  (let changed = changed_keys curr_vars (last_vars st1) in
                   if changed = [] then (st1\<lparr>last_vars := curr_vars\<rparr>, [])
                   else if \<not> truthy active_conversation_id then (st1\<lparr>last_vars := curr_vars\<rparr>, [])
                   else
                     (let payload = ContextualUpdate (summary_of changed)
                            (if truthy active_conversation_id then active_conversation_id else None)
                      in case send payload of
                           Some e \<Rightarrow> (st1, [])
                         | None \<Rightarrow> (st1\<lparr>last_vars := curr_vars\<rparr>, [payload]))))))"

text \<open>
  The variables before the first tick: \<^verbatim>\<open>last_mtime\<close> is the file's time, or 0 when
  there is no file; \<^verbatim>\<open>last_vars\<close> is the stringified buffer, which is the empty dict
  when there is no file. An exception here ends the watcher task.
\<close>

definition memory_watch_init :: "mem_obs \<Rightarrow> error + mem_watch" where
  "memory_watch_init obs =
     (let t = (if mem_exists obs then mem_mtime obs else 0);
          buffer = (if mem_exists obs then mem_json obs else Inr (JObj []))
      in case buffer of
           Inl e \<Rightarrow> Inl e
         | Inr m \<Rightarrow>
             (case to_string_map m of
                Inl e \<Rightarrow> Inl e
              | Inr vars \<Rightarrow> Inr \<lparr>last_mtime = t, last_vars = vars\<rparr>))"

section \<open>The event-log watcher tick: \<^verbatim>\<open>watch_updates_queue\<close>\<close>









section \<open>The receive loop of \<^verbatim>\<open>run_websocket\<close>\<close>

text \<open>
  The variables the loop shares with the watchers and the tool handlers:
  \<^verbatim>\<open>active_conversation_id\<close> (initially \<^verbatim>\<open>None\<close>) and the list \<^verbatim>\<open>transcript\<close>
  of \<^verbatim>\<open>{"role": ..., "text": ...}\<close> entries (initially empty).
\<close>

record session =
  active_conversation_id :: "string option"
  transcript :: "(string \<times> string) list"

definition initial_session :: session where
  "initial_session = \<lparr>active_conversation_id = None, transcript = []\<rparr>"

text \<open>
  An inbound frame after \<^verbatim>\<open>json.loads(raw)\<close> and the \<^verbatim>\<open>.get\<close> calls of its branch:
  \<open>Undecodable\<close> when the decoder raises, else the branch chosen by \<^verbatim>\<open>msg.get("type")\<close>
  with the fields that branch reads.
\<close>

datatype inbound =
    Undecodable
  | Ping "int option"
  | InitiationMetadata "string option"
  | UserTranscript "string option"
  | AgentResponse "string option"
  | Audio
  | Interruption
  | ClientToolCall "string option" "string option"
  | OtherType

text \<open>
  What the loop reads of the configuration and of the file system:
  \<^item> \<open>send\<close>: the transport;
  \<^item> \<open>memory_buffer\<close>: the outcome of \<^verbatim>\<open>load_memory_buffer(cfg)\<close>;
  \<^item> \<open>recent_max\<close>: \<^verbatim>\<open>cfg.get("recent_max")\<close>, \<open>None\<close> when the key is absent;
  \<^item> \<open>int_of_str\<close>: \<^verbatim>\<open>int(s)\<close> on a string, \<open>None\<close> when it raises;
  \<^item> \<open>log_write\<close>: \<open>None\<close> when \<^verbatim>\<open>cfg.get("log_transcripts_to_file")\<close> is false,
    else the outcome of appending a line to that file (\<open>Some None\<close> is success);
  \<^item> \<open>log_makedirs\<close>: the outcome of \<^verbatim>\<open>os.makedirs\<close> on the log file's directory.
\<close>

record env =
  send :: transport
  memory_buffer :: "error + json"
  recent_max :: "json option"
  int_of_str :: "string \<Rightarrow> int option"
  log_write :: "error option option"
  log_makedirs :: "error option"

text \<open>
  Python's truth value and \<^verbatim>\<open>int(v)\<close> of a configuration value.
\<close>

fun json_truthy :: "json \<Rightarrow> bool" where
  "json_truthy JNull = False"
| "json_truthy (JBool b) = b"
| "json_truthy (JInt i) = (i \<noteq> 0)"
| "json_truthy (JStr s) = (s \<noteq> [])"
| "json_truthy (JList xs) = (xs \<noteq> [])"
| "json_truthy (JObj kvs) = (kvs \<noteq> [])"

fun py_int :: "(string \<Rightarrow> int option) \<Rightarrow> json \<Rightarrow> error + int" where
  "py_int conv (JInt i) = Inr i"
| "py_int conv (JBool b) = Inr (if b then 1 else 0)"
| "py_int conv (JStr s) =
     (case conv s of
        Some i \<Rightarrow> Inr i
      | None \<Rightarrow> Inl (Exc ''ValueError'' ''invalid literal for int()''))"
| "py_int conv v = Inl (Exc ''TypeError'' ''int() argument must be a string or a number'')"

text \<open>
  \<^verbatim>\<open>xs[-n:]\<close>: the last \<open>n\<close> entries for a positive \<open>n\<close> (all of them when there are
  fewer), everything for \<open>n = 0\<close>, and \<^verbatim>\<open>xs[m:]\<close> for \<open>n = -m < 0\<close>.
\<close>

definition py_last_n :: "int \<Rightarrow> 'a list \<Rightarrow> 'a list" where
  "py_last_n n xs =
     (if n > 0 then drop (length xs - nat n) xs
      else if n = 0 then xs
      else drop (nat (- n)) xs)"

text \<open>
  The \<^verbatim>\<open>try\<close> block of the \<^verbatim>\<open>client_tool_call\<close> branch up to the result:
  \<^verbatim>\<open>if tool == "getMemoryBuffer":
      result = to_string_map(load_memory_buffer(cfg))
  elif tool == "getConversationHistory":
      n = int(cfg.get("recent_max", 10) or 10)
      result = {"messages": transcript[-n:]}
  else:
      raise ValueError(f"Unsupported tool: {tool}")\<close>
\<close>

definition tool_handler :: "env \<Rightarrow> session \<Rightarrow> string \<Rightarrow> error + tool_result" where
  "tool_handler e st tool =
     (if tool = ''getMemoryBuffer'' then
        (case memory_buffer e of
           Inl x \<Rightarrow> Inl x
         | Inr m \<Rightarrow> (case to_string_map m of Inl x \<Rightarrow> Inl x | Inr vars \<Rightarrow> Inr (MemoryResult vars)))
      else if tool = ''getConversationHistory'' then
        (let v = (case recent_max e of
                    None \<Rightarrow> JInt 10
                  | Some c \<Rightarrow> if json_truthy c then c else JInt 10)
         in case py_int (int_of_str e) v of
              Inl x \<Rightarrow> Inl x
            | Inr n \<Rightarrow> Inr (HistoryResult (py_last_n n (transcript st))))
      else Inl (Exc ''ValueError'' (''Unsupported tool: '' @ tool)))"

text \<open>
  \<^verbatim>\<open>tool = (call.get("tool_name") or "").strip()\<close>
\<close>

definition tool_name_of :: "string option \<Rightarrow> string" where
  "tool_name_of tool_name =
     py_strip (if truthy tool_name then (case tool_name of Some n \<Rightarrow> n | None \<Rightarrow> []) else [])"

text \<open>
  One iteration of \<^verbatim>\<open>async for raw in ws\<close>: the new variables, the messages sent, and
  the exception that leaves the loop, if any.

  In the \<^verbatim>\<open>client_tool_call\<close> branch the successful send stands inside the
  \<^verbatim>\<open>try\<close>, so an exception of that send reaches the \<^verbatim>\<open>except\<close> clause as well,
  which sends the error result; an exception of the send in the \<^verbatim>\<open>except\<close> clause
  leaves the loop.
\<close>

definition append_turn :: "env \<Rightarrow> session \<Rightarrow> string \<Rightarrow> string \<Rightarrow> session \<times> outbound list \<times> error option" where
  "append_turn e st role text =
     (let st' = st\<lparr>transcript := transcript st @ [(role, text)]\<rparr>
      in case log_write e of
           None \<Rightarrow> (st', [], None)
         | Some outcome \<Rightarrow> (st', [], outcome))"

fun receive_step :: "env \<Rightarrow> session \<Rightarrow> inbound \<Rightarrow> session \<times> outbound list \<times> error option" where
  "receive_step e st Undecodable = (st, [], None)"
| "receive_step e st (Ping event_id) =
     (case event_id of
        None \<Rightarrow> (st, [], None)
      | Some i \<Rightarrow>
          (case send e (Pong i) of
             None \<Rightarrow> (st, [Pong i], None)
           | Some x \<Rightarrow> (st, [], Some x)))"
| "receive_step e st (InitiationMetadata conv_id) =
     (let st' = (if truthy conv_id then st\<lparr>active_conversation_id := conv_id\<rparr> else st)
      in if truthy conv_id \<and> log_write e \<noteq> None then (st', [], log_makedirs e)
         else (st', [], None))"
| "receive_step e st (UserTranscript text) =
     (case text of
        None \<Rightarrow> (st, [], None)
      | Some t \<Rightarrow> if t = [] then (st, [], None) else append_turn e st ''user'' t)"
| "receive_step e st (AgentResponse text) =
     (case text of
        None \<Rightarrow> (st, [], None)
      | Some t \<Rightarrow> if t = [] then (st, [], None) else append_turn e st ''assistant'' t)"
| "receive_step e st Audio = (st, [], None)"
| "receive_step e st Interruption = (st, [], None)"
| "receive_step e st (ClientToolCall tool_name call_id) =
     (let tool = tool_name_of tool_name;
          failure = (\<lambda>x. let m = ClientToolResult call_id (ErrorText (exc_msg x)) True
                         in case send e m of
                              None \<Rightarrow> (st, [m], None)
                            | Some y \<Rightarrow> (st, [], Some y))
      in case tool_handler e st tool of
           Inl x \<Rightarrow> failure x
         | Inr result \<Rightarrow>
             (let m = ClientToolResult call_id result False
              in case send e m of
                   None \<Rightarrow> (st, [m], None)
                 | Some x \<Rightarrow> failure x))"
| "receive_step e st OtherType = (st, [], None)"

text \<open>
  The loop over the inbound frames, each with the environment of its moment; it stops
  at the first exception that leaves an iteration.
\<close>

fun receive_loop :: "session \<Rightarrow> (env \<times> inbound) list \<Rightarrow> session \<times> outbound list \<times> error option" where
  "receive_loop st [] = (st, [], None)"
| "receive_loop st ((e, ev) # rest) =
     (case receive_step e st ev of
        (st', out, Some x) \<Rightarrow> (st', out, Some x)
      | (st', out, None) \<Rightarrow>
          (case receive_loop st' rest of (st'', out', r) \<Rightarrow> (st'', out @ out', r)))"

section \<open>Reading a run: what came in and what went out\<close>

text \<open>
  The event ids of the pings that carry one, and of the pongs on the wire; the call ids
  of the tool calls, and of the tool results on the wire.
\<close>

fun ping_ids :: "inbound list \<Rightarrow> int list" where
  "ping_ids [] = []"
| "ping_ids (Ping (Some i) # evs) = i # ping_ids evs"
| "ping_ids (ev # evs) = ping_ids evs"

fun pong_ids :: "outbound list \<Rightarrow> int list" where
  "pong_ids [] = []"
| "pong_ids (Pong i # ms) = i # pong_ids ms"
| "pong_ids (m # ms) = pong_ids ms"



text \<open>
  An environment for worked examples: the transport takes every message, the memory
  buffer is \<^verbatim>\<open>{"mood": "calm", "tags": [1, 2]}\<close>, \<^verbatim>\<open>recent_max\<close> is not
  configured and no transcript log is configured.
\<close>

definition example_memory :: json where
  "example_memory = JObj [(''mood'', JStr ''calm''), (''tags'', JList [JInt 1, JInt 2])]"

definition example_env :: env where
  "example_env =
     \<lparr>send = (\<lambda>m. None), memory_buffer = Inr example_memory, recent_max = None,
      int_of_str = (\<lambda>s. None), log_write = None, log_makedirs = None\<rparr>"




text \<open>
  Two transports for worked examples: one takes every message, one is closed.
\<close>

definition send_ok :: transport where
  "send_ok m = None"



section \<open>Facts about the changed keys\<close>

lemma changed_keys_subset: "set (changed_keys cv pv) \<subseteq> fst ` set cv"
  by (auto simp: changed_keys_def)

lemma get_or_empty_absent: "k \<notin> fst ` set m \<Longrightarrow> get_or_empty m k = []"
  by (simp add: get_or_empty_def map_of_eq_None_iff [THEN iffD2])

lemma changed_keys_iff:
  "k \<in> set (changed_keys cv pv) \<longleftrightarrow>
     k \<in> fst ` set cv \<and> get_or_empty cv k \<noteq> get_or_empty pv k"
  by (auto simp: changed_keys_def)

lemma changed_keys_Nil_iff:
  "changed_keys cv pv = [] \<longleftrightarrow> (\<forall>k \<in> fst ` set cv. get_or_empty cv k = get_or_empty pv k)"
  by (auto simp: changed_keys_def filter_empty_conv)

lemma changed_keys_same [simp]: "changed_keys cv cv = []"
  by (simp add: changed_keys_Nil_iff)

text \<open>
  Claim C10. The changed keys are keys of the new stringified snapshot only. A key that
  is in the previous snapshot and not in the new one is never reported, and a key that
  is new and whose stringified value is the empty string is never reported. When two
  successive snapshots differ in such keys only, the tick sends nothing.
\<close>

theorem changed_keys_ignore_removed_and_empty:
  "set (changed_keys cv pv) \<subseteq> fst ` set cv
   \<and> (k \<notin> fst ` set cv \<longrightarrow> k \<notin> set (changed_keys cv pv))
   \<and> (k \<notin> fst ` set pv \<and> get_or_empty cv k = [] \<longrightarrow> k \<notin> set (changed_keys cv pv))
   \<and> ((\<forall>k \<in> fst ` set cv.
          if k \<in> fst ` set pv then get_or_empty cv k = get_or_empty pv k
          else get_or_empty cv k = [])
        \<and> mem_json obs = Inr m \<and> to_string_map m = Inr cv \<and> last_vars st = pv
        \<longrightarrow> snd (memory_tick tr active st obs) = [])"
proof -
  have a: "set (changed_keys cv pv) \<subseteq> fst ` set cv"
    by (rule changed_keys_subset)
  have b: "k \<notin> fst ` set cv \<longrightarrow> k \<notin> set (changed_keys cv pv)"
    using a by auto
  have c: "k \<notin> fst ` set pv \<and> get_or_empty cv k = [] \<longrightarrow> k \<notin> set (changed_keys cv pv)"
    by (simp add: changed_keys_iff get_or_empty_absent)
  have d: "(\<forall>k \<in> fst ` set cv.
          if k \<in> fst ` set pv then get_or_empty cv k = get_or_empty pv k
          else get_or_empty cv k = [])
        \<and> mem_json obs = Inr m \<and> to_string_map m = Inr cv \<and> last_vars st = pv
        \<longrightarrow> snd (memory_tick tr active st obs) = []"
  proof (intro impI, elim conjE)
    assume h: "\<forall>k \<in> fst ` set cv.
          if k \<in> fst ` set pv then get_or_empty cv k = get_or_empty pv k
          else get_or_empty cv k = []"
      and o: "mem_json obs = Inr m" "to_string_map m = Inr cv" "last_vars st = pv"
    have "\<forall>k \<in> fst ` set cv. get_or_empty cv k = get_or_empty pv k"
    proof
      fix k assume k: "k \<in> fst ` set cv"
      show "get_or_empty cv k = get_or_empty pv k"
      proof (cases "k \<in> fst ` set pv")
        case True with bspec [OF h k] show ?thesis by simp
      next
        case False
        with bspec [OF h k] have "get_or_empty cv k = []" by simp
        with False show ?thesis by (simp add: get_or_empty_absent)
      qed
    qed
    then have "changed_keys cv pv = []"
      by (simp add: changed_keys_Nil_iff)
    with o show "snd (memory_tick tr active st obs) = []"
      by (simp add: memory_tick_def Let_def)
  qed
  from a b c d show ?thesis by blast
qed

theorem changed_keys_ignore_removed_and_empty_witness:
  "changed_keys [(''mood'', ''calm''), (''note'', '''')] [(''mood'', ''calm''), (''tags'', ''[1, 2]'')] = []
   \<and> ''tags'' \<notin> fst ` set [(''mood'', ''calm''), (''note'', '''')]
   \<and> ''tags'' \<notin> set (changed_keys [(''mood'', ''calm''), (''note'', '''')] [(''mood'', ''calm''), (''tags'', ''[1, 2]'')])
   \<and> ''note'' \<notin> fst ` set [(''mood'', ''calm''), (''tags'', ''[1, 2]'')]
   \<and> get_or_empty [(''mood'', ''calm''), (''note'', '''')] ''note'' = []
   \<and> ''note'' \<notin> set (changed_keys [(''mood'', ''calm''), (''note'', '''')] [(''mood'', ''calm''), (''tags'', ''[1, 2]'')])
   \<and> snd (memory_tick send_ok (Some ''S1'')
             \<lparr>last_mtime = 1, last_vars = [(''mood'', ''calm''), (''tags'', ''[1, 2]'')]\<rparr>
             \<lparr>mem_exists = True, mem_mtime = 2,
               mem_json = Inr (JObj [(''mood'', JStr ''calm''), (''note'', JNull)])\<rparr>) = []"
proof -
  let ?cv = "[(''mood'', ''calm''), (''note'', '''')]"
  let ?pv = "[(''mood'', ''calm''), (''tags'', ''[1, 2]'')]"
  let ?st = "\<lparr>last_mtime = 1, last_vars = ?pv\<rparr>"
  let ?obs = "\<lparr>mem_exists = True, mem_mtime = 2,
               mem_json = Inr (JObj [(''mood'', JStr ''calm''), (''note'', JNull)])\<rparr>"
  have h1: "''tags'' \<notin> fst ` set ?cv" by simp
  have h2: "''note'' \<notin> fst ` set ?pv" by simp
  have h3: "get_or_empty ?cv ''note'' = []" by (simp add: get_or_empty_def)
  have h4: "\<forall>k \<in> fst ` set ?cv.
          if k \<in> fst ` set ?pv then get_or_empty ?cv k = get_or_empty ?pv k
          else get_or_empty ?cv k = []"
    by (simp add: get_or_empty_def)
  have h5: "to_string_map (JObj [(''mood'', JStr ''calm''), (''note'', JNull)]) = Inr ?cv"
    by simp
  have h6: "changed_keys ?cv ?pv = []"
    by (simp add: changed_keys_def get_or_empty_def)
  note t1 = changed_keys_ignore_removed_and_empty [of ?cv ?pv "''tags''" ?obs
      "JObj [(''mood'', JStr ''calm''), (''note'', JNull)]" ?st send_ok "Some ''S1''"]
  note t2 = changed_keys_ignore_removed_and_empty [of ?cv ?pv "''note''" ?obs
      "JObj [(''mood'', JStr ''calm''), (''note'', JNull)]" ?st send_ok "Some ''S1''"]
  from t1 h1 have a: "''tags'' \<notin> set (changed_keys ?cv ?pv)" by blast
  from t2 h2 h3 have b: "''note'' \<notin> set (changed_keys ?cv ?pv)" by blast
  from t1 h4 h5 have c: "snd (memory_tick send_ok (Some ''S1'') ?st ?obs) = []" by simp
  from h1 h2 h3 h6 a b c show ?thesis by blast
qed

section \<open>The receive loop: pings and tool calls\<close>

lemma pong_ids_append: "pong_ids (a @ b) = pong_ids a @ pong_ids b"
  by (induction a rule: pong_ids.induct) auto


lemma receive_step_pongs:
  "receive_step e st ev = (st', out, None) \<Longrightarrow> pong_ids out = ping_ids [ev]"
  by (cases ev)
     (auto simp: append_turn_def Let_def split: option.splits if_splits sum.splits)


lemma ping_ids_Cons: "ping_ids (ev # evs) = ping_ids [ev] @ ping_ids evs"
  by (cases "(ev # evs)" rule: ping_ids.cases) auto


lemma receive_loop_pongs:
  "receive_loop st evs = (st', out, None) \<Longrightarrow> pong_ids out = ping_ids (map snd evs)"
proof (induction evs arbitrary: st st' out)
  case Nil
  then show ?case by simp
next
  case (Cons p evs)
  obtain e ev where p: "p = (e, ev)" by (cases p)
  obtain st1 o1 r1 where s: "receive_step e st ev = (st1, o1, r1)" by (cases "receive_step e st ev")
  with Cons.prems p have r1: "r1 = None" by (auto split: option.splits prod.splits)
  obtain st2 o2 r2 where l: "receive_loop st1 evs = (st2, o2, r2)" by (cases "receive_loop st1 evs")
  from Cons.prems p s r1 l have eq: "st' = st2" "out = o1 @ o2" "r2 = None" by auto
  from Cons.IH [of st1 st2 o2] l eq have "pong_ids o2 = ping_ids (map snd evs)" by simp
  moreover from receive_step_pongs s r1 have "pong_ids o1 = ping_ids [ev]" by blast
  ultimately show ?case using p eq by (simp add: pong_ids_append ping_ids_Cons [of ev "map snd evs"])
qed


text \<open>
  Claim C3. A ping that carries the event id \<open>i\<close> is answered, in the iteration that
  consumed it, by the single message \<open>Pong i\<close> and nothing else (the transport taking
  the message). Over a run of the receive loop that no exception has left, the pongs on
  the wire are the event ids of the pings, one for one and in order.
\<close>

theorem ping_answered_by_one_pong:
  "(send e (Pong i) = None \<longrightarrow> receive_step e st (Ping (Some i)) = (st, [Pong i], None))
   \<and> (receive_loop st0 evs = (st', out, None) \<longrightarrow> pong_ids out = ping_ids (map snd evs))"
  using receive_loop_pongs by auto

theorem ping_answered_by_one_pong_witness:
  "send example_env (Pong 7) = None
   \<and> receive_step example_env initial_session (Ping (Some 7)) = (initial_session, [Pong 7], None)
   \<and> receive_loop initial_session
        [(example_env, Ping (Some 7)), (example_env, Audio), (example_env, Ping (Some 8))]
       = (initial_session, [Pong 7, Pong 8], None)
   \<and> pong_ids [Pong 7, Pong 8] = ping_ids [Ping (Some 7), Audio, Ping (Some 8)]"
proof -
  have s: "send example_env (Pong 7) = None"
    by (simp add: example_env_def)
  have l: "receive_loop initial_session
        [(example_env, Ping (Some 7)), (example_env, Audio), (example_env, Ping (Some 8))]
       = (initial_session, [Pong 7, Pong 8], None)"
    by (simp add: example_env_def)
  from ping_answered_by_one_pong [of example_env 7 initial_session initial_session
      "[(example_env, Ping (Some 7)), (example_env, Audio), (example_env, Ping (Some 8))]"
      initial_session "[Pong 7, Pong 8]"] s l
  show ?thesis by simp
qed



section \<open>The watchers and the transcript: step facts\<close>









lemma memory_tick_changed:
  assumes "mem_exists obs" "last_mtime st < mem_mtime obs" "mem_json obs = Inr mj"
    "to_string_map mj = Inr cv" "changed_keys cv (last_vars st) \<noteq> []"
  shows "memory_tick tr active st obs =
     (if truthy active \<and> tr (ContextualUpdate (summary_of (changed_keys cv (last_vars st))) active) = None
      then (\<lparr>last_mtime = mem_mtime obs, last_vars = cv\<rparr>,
            [ContextualUpdate (summary_of (changed_keys cv (last_vars st))) active])
      else if truthy active then (\<lparr>last_mtime = mem_mtime obs, last_vars = last_vars st\<rparr>, [])
      else (\<lparr>last_mtime = mem_mtime obs, last_vars = cv\<rparr>, []))"
  using assms by (auto simp: memory_tick_def Let_def split: option.splits)







section \<open>The claims about the watchers and the transcript\<close>

text \<open>
  Claim C8. A tick of the memory watcher puts at most one message on the wire, whatever
  the number of changed keys, and with an active session and a transport that takes the
  message it puts exactly one: the summary of the changed keys. The summary lists the
  changed keys when there are at most 8 of them; with more it lists the first 8 and adds
  the number of the others, so that 12 changed keys give the first 8 names and the
  suffix \<^verbatim>\<open> (+4 more)\<close>.
\<close>

theorem summary_caps_at_eight:
  "(length changed \<le> 8 \<longrightarrow> summary_of changed = ''Context update: '' @ py_join '', '' changed)
   \<and> (8 < length changed \<longrightarrow>
        summary_of changed =
          ''Context update: '' @ py_join '', '' (take 8 changed)
            @ '' (+'' @ nat_digits (length changed - 8) @ '' more)'')
   \<and> (length changed = 12 \<longrightarrow>
        summary_of changed = ''Context update: '' @ py_join '', '' (take 8 changed) @ '' (+4 more)'')
   \<and> length (snd (memory_tick tr active st obs)) \<le> 1
   \<and> (mem_exists obs \<and> last_mtime st < mem_mtime obs \<and> mem_json obs = Inr mj
        \<and> to_string_map mj = Inr cv \<and> changed_keys cv (last_vars st) \<noteq> []
        \<and> truthy active
        \<and> tr (ContextualUpdate (summary_of (changed_keys cv (last_vars st))) active) = None
      \<longrightarrow> snd (memory_tick tr active st obs)
            = [ContextualUpdate (summary_of (changed_keys cv (last_vars st))) active])"
proof -
  have a: "length changed \<le> 8 \<longrightarrow> summary_of changed = ''Context update: '' @ py_join '', '' changed"
    by (simp add: summary_of_def)
  have b: "8 < length changed \<longrightarrow>
        summary_of changed =
          ''Context update: '' @ py_join '', '' (take 8 changed)
            @ '' (+'' @ nat_digits (length changed - 8) @ '' more)''"
  proof
    assume l: "8 < length changed"
    then have "nat (int (length changed) - 8) = length changed - 8" by simp
    with l show "summary_of changed =
          ''Context update: '' @ py_join '', '' (take 8 changed)
            @ '' (+'' @ nat_digits (length changed - 8) @ '' more)''"
      by (simp add: summary_of_def py_str_int_def)
  qed
  have four: "nat_digits 4 = ''4''"
    by code_simp
  have c: "length changed = 12 \<longrightarrow>
        summary_of changed = ''Context update: '' @ py_join '', '' (take 8 changed) @ '' (+4 more)''"
    using b four by simp
  have d: "length (snd (memory_tick tr active st obs)) \<le> 1"
    by (auto simp: memory_tick_def Let_def split: sum.splits option.splits)
  have e: "mem_exists obs \<and> last_mtime st < mem_mtime obs \<and> mem_json obs = Inr mj
        \<and> to_string_map mj = Inr cv \<and> changed_keys cv (last_vars st) \<noteq> []
        \<and> truthy active
        \<and> tr (ContextualUpdate (summary_of (changed_keys cv (last_vars st))) active) = None
      \<longrightarrow> snd (memory_tick tr active st obs)
            = [ContextualUpdate (summary_of (changed_keys cv (last_vars st))) active]"
    using memory_tick_changed [of obs st mj cv tr active] by simp
  from a b c d e show ?thesis by blast
qed

theorem summary_caps_at_eight_witness:
  "length [''k1'', ''k2'', ''k3'', ''k4'', ''k5'', ''k6'', ''k7'', ''k8'', ''k9'', ''k10'', ''k11'', ''k12''] = 12
   \<and> summary_of [''k1'', ''k2'', ''k3'', ''k4'', ''k5'', ''k6'', ''k7'', ''k8'', ''k9'', ''k10'', ''k11'', ''k12'']
       = ''Context update: k1, k2, k3, k4, k5, k6, k7, k8 (+4 more)''
   \<and> length [''mood'', ''tags''] \<le> 8
   \<and> summary_of [''mood'', ''tags''] = ''Context update: mood, tags''
   \<and> snd (memory_tick send_ok (Some ''S1'') \<lparr>last_mtime = 1, last_vars = []\<rparr>
             \<lparr>mem_exists = True, mem_mtime = 2, mem_json = Inr example_memory\<rparr>)
       = [ContextualUpdate ''Context update: mood, tags'' (Some ''S1'')]"
proof -
  let ?ks = "[''k1'', ''k2'', ''k3'', ''k4'', ''k5'', ''k6'', ''k7'', ''k8'', ''k9'', ''k10'', ''k11'', ''k12'']"
  let ?st = "\<lparr>last_mtime = 1, last_vars = []\<rparr>"
  let ?obs = "\<lparr>mem_exists = True, mem_mtime = 2, mem_json = Inr example_memory\<rparr>"
  let ?cv = "[(''mood'', ''calm''), (''tags'', ''[1, 2]'')]"
  have l: "length ?ks = 12" by simp
  have h1: "to_string_map example_memory = Inr ?cv" by code_simp
  have h2: "changed_keys ?cv [] = [''mood'', ''tags'']"
    by (simp add: changed_keys_def get_or_empty_def)
  have h3: "send_ok (ContextualUpdate (summary_of (changed_keys ?cv (last_vars ?st))) (Some ''S1'')) = None"
    by (simp add: send_ok_def)
  note t1 = summary_caps_at_eight [of ?ks send_ok "Some ''S1''" ?st ?obs example_memory ?cv]
  note t2 = summary_caps_at_eight [of "[''mood'', ''tags'']" send_ok "Some ''S1''" ?st ?obs example_memory ?cv]
  from t1 l have "summary_of ?ks = ''Context update: '' @ py_join '', '' (take 8 ?ks) @ '' (+4 more)''"
    by blast
  then have a: "summary_of ?ks = ''Context update: k1, k2, k3, k4, k5, k6, k7, k8 (+4 more)''"
    by simp
  have "length [''mood'', ''tags''] \<le> 8" by simp
  with t2 have "summary_of [''mood'', ''tags''] = ''Context update: '' @ py_join '', '' [''mood'', ''tags'']"
    by blast
  then have b: "summary_of [''mood'', ''tags''] = ''Context update: mood, tags''"
    by simp
  have h4: "mem_exists ?obs \<and> last_mtime ?st < mem_mtime ?obs \<and> mem_json ?obs = Inr example_memory
        \<and> to_string_map example_memory = Inr ?cv \<and> changed_keys ?cv (last_vars ?st) \<noteq> []
        \<and> truthy (Some ''S1'')
        \<and> send_ok (ContextualUpdate (summary_of (changed_keys ?cv (last_vars ?st))) (Some ''S1'')) = None"
    using h1 h2 h3 by simp
  with t1 have "snd (memory_tick send_ok (Some ''S1'') ?st ?obs)
       = [ContextualUpdate (summary_of (changed_keys ?cv (last_vars ?st))) (Some ''S1'')]"
    by blast
  with h2 b have c: "snd (memory_tick send_ok (Some ''S1'') ?st ?obs)
       = [ContextualUpdate ''Context update: mood, tags'' (Some ''S1'')]"
    by simp
  from l a b c show ?thesis by simp
qed









section \<open>The encoder's text reads back\<close>

















lemma hex_value_hex_digit: "d < 16 \<Longrightarrow> hex_value (hex_digit d) = Some d"
  by (auto simp: hex_value_def hex_digit_def Let_def)

lemma hex4_low:
  assumes "n < 32"
  shows "hex4 (CHR ''0'') (CHR ''0'') (hex_digit (n div 16)) (hex_digit (n mod 16)) = Some n"
proof -
  have a: "hex_value (CHR ''0'') = Some 0" by (simp add: hex_value_def)
  have b: "hex_value (hex_digit (n div 16)) = Some (n div 16)"
    using assms by (intro hex_value_hex_digit) simp
  have c: "hex_value (hex_digit (n mod 16)) = Some (n mod 16)"
    by (intro hex_value_hex_digit) simp
  show ?thesis by (simp add: hex4_def a b c)
qed

lemma parse_string_escape_char:
  assumes "parse_string s = Some (str, rest)"
  shows "parse_string (escape_char c @ s) = Some (c # str, rest)"
proof -
  consider (q) "c = CHR 0x22" | (b) "c = CHR 0x5C" | (n) "c = CHR 0x0A" | (r) "c = CHR 0x0D"
    | (t) "c = CHR 0x09" | (bs) "c = CHR 0x08" | (ff) "c = CHR 0x0C"
    | (ctl) "c \<noteq> CHR 0x22" "c \<noteq> CHR 0x5C" "c \<noteq> CHR 0x0A" "c \<noteq> CHR 0x0D" "c \<noteq> CHR 0x09"
        "c \<noteq> CHR 0x08" "c \<noteq> CHR 0x0C" "(of_char c :: nat) < 32"
    | (plain) "c \<noteq> CHR 0x22" "c \<noteq> CHR 0x5C" "\<not> (of_char c :: nat) < 32"
    by (cases "(of_char c :: nat) < 32") auto
  then show ?thesis
  proof cases
    case q then show ?thesis using assms by (simp add: escape_char_def unescape_def)
  next
    case b then show ?thesis using assms by (simp add: escape_char_def unescape_def)
  next
    case n then show ?thesis using assms by (simp add: escape_char_def unescape_def)
  next
    case r then show ?thesis using assms by (simp add: escape_char_def unescape_def)
  next
    case t then show ?thesis using assms by (simp add: escape_char_def unescape_def)
  next
    case bs then show ?thesis using assms by (simp add: escape_char_def unescape_def)
  next
    case ff then show ?thesis using assms by (simp add: escape_char_def unescape_def)
  next
    case ctl
    then have e: "escape_char c = [CHR 0x5C, CHR ''u'', CHR ''0'', CHR ''0'',
              hex_digit (of_char c div 16), hex_digit (of_char c mod 16)]"
      by (simp add: escape_char_def)
    have h: "hex4 (CHR ''0'') (CHR ''0'') (hex_digit (of_char c div 16)) (hex_digit (of_char c mod 16))
        = Some (of_char c)"
      using ctl(8) by (rule hex4_low)
    show ?thesis
      using assms ctl(8) by (simp add: e h)
  next
    case plain
    then have e: "escape_char c = [c]"
      by (auto simp: escape_char_def)
    show ?thesis using assms plain by (simp add: e)
  qed
qed

lemma parse_string_body:
  "parse_string (concat (map escape_char s) @ CHR 0x22 # rest) = Some (s, rest)"
  by (induction s) (simp_all add: parse_string_escape_char)

lemma parse_string_encode_str:
  "parse_string (drop 1 (encode_str s @ rest)) = Some (s, rest)"
  using parse_string_body [of s rest] by (simp add: encode_str_def)














lemma skip_ws_simps [simp]:
  "skip_ws [] = []" "skip_ws (CHR '','' # s) = CHR '','' # s" "skip_ws (CHR '']'' # s) = CHR '']'' # s"
  "skip_ws (CHR ''}'' # s) = CHR ''}'' # s" "skip_ws (CHR '':'' # s) = CHR '':'' # s"
  by (simp_all add: skip_ws_def is_ws_def)













section \<open>Prompt rendering\<close>

lemma py_replace_Nil: "old \<noteq> [] \<Longrightarrow> py_replace old new [] = []"
  by (subst py_replace.simps) simp

lemma py_replace_skip:
  "old \<noteq> [] \<Longrightarrow> \<not> prefix old (c # s) \<Longrightarrow> py_replace old new (c # s) = c # py_replace old new s"
  by (subst py_replace.simps) simp

lemma py_replace_hit:
  "old \<noteq> [] \<Longrightarrow> py_replace old new (old @ s) = new @ py_replace old new s"
  by (subst py_replace.simps) simp

lemma py_replace_no_open:
  assumes "\<forall>c \<in> set u. c \<noteq> CHR ''{''"
  shows "py_replace (CHR ''{'' # p) new (u @ s) = u @ py_replace (CHR ''{'' # p) new s"
  using assms
proof (induction u)
  case Nil
  then show ?case by simp
next
  case (Cons a u)
  then have "a \<noteq> CHR ''{''" by simp
  then have "\<not> prefix (CHR ''{'' # p) (a # u @ s)" by auto
  then have "py_replace (CHR ''{'' # p) new (a # u @ s) = a # py_replace (CHR ''{'' # p) new (u @ s)"
    by (intro py_replace_skip) simp_all
  with Cons show ?case by simp
qed

lemma brace_free_no_open: "brace_free s \<Longrightarrow> \<forall>c \<in> set s. c \<noteq> CHR ''{''"
  by (auto simp: brace_free_def list_all_iff not_brace_def)

lemma brace_free_Cons [simp]: "brace_free (c # s) = (not_brace c \<and> brace_free s)"
  by (simp add: brace_free_def)

lemma brace_free_Nil [simp]: "brace_free []"
  by (simp add: brace_free_def)

lemma key_prefix_eq:
  assumes "brace_free k" "brace_free k'" "prefix (k @ ''}}'') (k' @ ''}}'' @ s)"
  shows "k = k'"
  using assms
proof (induction k arbitrary: k')
  case Nil
  then show ?case by (cases k') (auto simp: not_brace_def)
next
  case (Cons a k)
  then show ?case by (cases k') (auto simp: not_brace_def)
qed

lemma py_replace_other_placeholder:
  assumes "brace_free k" "brace_free k'" "k' \<noteq> []" "k' \<noteq> k"
  shows "py_replace (placeholder k) v (placeholder k' @ s) = placeholder k' @ py_replace (placeholder k) v s"
proof -
  let ?p = "CHR ''{'' # CHR ''{'' # k @ ''}}''"
  have p: "placeholder k = ?p" by (simp add: placeholder_def)
  obtain c cs where k': "k' = c # cs" using assms(3) by (cases k') auto
  with assms(2) have c: "c \<noteq> CHR ''{''" by (simp add: not_brace_def)
  have n0: "\<not> prefix ?p (CHR ''{'' # CHR ''{'' # k' @ ''}}'' @ s)"
    using key_prefix_eq [OF assms(1,2), of s] assms(4) by auto
  have n1: "\<not> prefix ?p (CHR ''{'' # k' @ ''}}'' @ s)"
    using k' c by simp
  have u: "\<forall>x \<in> set (k' @ ''}}''). x \<noteq> CHR ''{''"
    using brace_free_no_open [OF assms(2)] by auto
  have "py_replace ?p v (CHR ''{'' # CHR ''{'' # k' @ ''}}'' @ s)
      = CHR ''{'' # CHR ''{'' # py_replace ?p v ((k' @ ''}}'') @ s)"
    using n0 n1 by (simp add: py_replace_skip)
  also have "\<dots> = CHR ''{'' # CHR ''{'' # (k' @ ''}}'') @ py_replace ?p v s"
    using py_replace_no_open [OF u, of "CHR ''{'' # k @ ''}}''" v s] by simp
  finally show ?thesis by (simp add: p placeholder_def)
qed

lemma py_replace_segment:
  assumes "brace_free k" "wf_segment seg"
  shows "py_replace (placeholder k) v (segment_text seg @ s)
     = segment_text (fill_segment k v seg) @ py_replace (placeholder k) v s"
proof (cases seg)
  case (Lit l)
  with assms(2) have "\<forall>c \<in> set l. c \<noteq> CHR ''{''" by (simp add: brace_free_no_open)
  from py_replace_no_open [OF this, of "CHR ''{'' # k @ ''}}''" v s] Lit show ?thesis
    by (simp add: placeholder_def)
next
  case (Ph k')
  show ?thesis
  proof (cases "k' = k")
    case True
    have "placeholder k \<noteq> []" by (simp add: placeholder_def)
    from py_replace_hit [OF this, of v s] True Ph show ?thesis by simp
  next
    case False
    with Ph assms py_replace_other_placeholder [of k k' v s] show ?thesis by simp
  qed
qed

lemma py_replace_template:
  assumes "brace_free k" "list_all wf_segment segs"
  shows "py_replace (placeholder k) v (template_of segs) = template_of (map (fill_segment k v) segs)"
  using assms(2)
proof (induction segs)
  case Nil
  have "placeholder k \<noteq> []" by (simp add: placeholder_def)
  then show ?case by (simp add: template_of_def py_replace_Nil)
next
  case (Cons seg segs)
  then have "py_replace (placeholder k) v (template_of segs) = template_of (map (fill_segment k v) segs)"
    by simp
  with py_replace_segment [OF assms(1), of seg v "template_of segs"] Cons.prems
  show ?case by (simp add: template_of_def)
qed

lemma re_sub_Nil [simp]: "re_sub_placeholders [] = []"
  by (subst re_sub_placeholders.simps) simp

lemma re_sub_keep:
  "match_placeholder (c # s) = None \<Longrightarrow> re_sub_placeholders (c # s) = c # re_sub_placeholders s"
  by (subst re_sub_placeholders.simps) simp

lemma re_sub_drop:
  "match_placeholder (c # s) = Some rest \<Longrightarrow> re_sub_placeholders (c # s) = re_sub_placeholders rest"
  by (subst re_sub_placeholders.simps) simp

lemma match_placeholder_no_open: "c \<noteq> CHR ''{'' \<Longrightarrow> match_placeholder (c # s) = None"
  by (auto simp: match_placeholder_def)

lemma re_sub_no_open:
  assumes "\<forall>c \<in> set u. c \<noteq> CHR ''{''"
  shows "re_sub_placeholders (u @ s) = u @ re_sub_placeholders s"
  using assms
proof (induction u)
  case Nil
  then show ?case by simp
next
  case (Cons a u)
  then have "match_placeholder (a # u @ s) = None"
    by (intro match_placeholder_no_open) simp
  then have "re_sub_placeholders (a # u @ s) = a # re_sub_placeholders (u @ s)"
    by (rule re_sub_keep)
  with Cons show ?case by simp
qed

lemma re_sub_brace_free: "brace_free v \<Longrightarrow> re_sub_placeholders v = v"
  using re_sub_no_open [of v "[]"] brace_free_no_open [of v] by simp

lemma takeWhile_key:
  "brace_free k \<Longrightarrow> takeWhile not_brace (k @ CHR ''}'' # s) = k"
  by (induction k) (simp_all add: not_brace_def)

lemma dropWhile_key:
  "brace_free k \<Longrightarrow> dropWhile not_brace (k @ CHR ''}'' # s) = CHR ''}'' # s"
  by (induction k) (simp_all add: not_brace_def)

lemma match_placeholder_hit:
  assumes "brace_free k" "k \<noteq> []"
  shows "match_placeholder (placeholder k @ s) = Some s"
  using assms takeWhile_key [OF assms(1), of "CHR ''}'' # s"] dropWhile_key [OF assms(1), of "CHR ''}'' # s"]
  by (simp add: match_placeholder_def placeholder_def Let_def)

lemma re_sub_placeholder:
  assumes "brace_free k" "k \<noteq> []"
  shows "re_sub_placeholders (placeholder k @ s) = re_sub_placeholders s"
proof -
  have "placeholder k @ s = CHR ''{'' # (CHR ''{'' # k @ ''}}'' @ s)"
    by (simp add: placeholder_def)
  with match_placeholder_hit [OF assms, of s] re_sub_drop [of "CHR ''{''" "CHR ''{'' # k @ ''}}'' @ s" s]
  show ?thesis by simp
qed

lemma re_sub_template:
  assumes "list_all wf_segment segs"
  shows "re_sub_placeholders (template_of segs) = render_spec segs []"
  using assms
proof (induction segs)
  case Nil
  then show ?case by (simp add: template_of_def render_spec_def)
next
  case (Cons seg segs)
  then have ih: "re_sub_placeholders (template_of segs) = render_spec segs []" by simp
  show ?case
  proof (cases seg)
    case (Lit l)
    with Cons.prems have "brace_free l" by simp
    then have "\<forall>c \<in> set l. c \<noteq> CHR ''{''" by (rule brace_free_no_open)
    from re_sub_no_open [OF this, of "template_of segs"] ih Lit show ?thesis
      by (simp add: template_of_def render_spec_def)
  next
    case (Ph k)
    with Cons.prems have "brace_free k" "k \<noteq> []" by simp_all
    from re_sub_placeholder [OF this, of "template_of segs"] ih Ph show ?thesis
      by (simp add: template_of_def render_spec_def)
  qed
qed

lemma wf_fill_segment: "brace_free v \<Longrightarrow> wf_segment seg \<Longrightarrow> wf_segment (fill_segment k v seg)"
  by (cases seg) simp_all

lemma render_segment_spec_fill:
  "render_segment_spec variables (fill_segment k v seg) = render_segment_spec ((k, v) # variables) seg"
  by (cases seg) simp_all

lemma render_spec_fill:
  "render_spec (map (fill_segment k v) segs) variables = render_spec segs ((k, v) # variables)"
  by (induction segs) (simp_all add: render_spec_def render_segment_spec_fill)

lemma render_prompt_template:
  assumes "list_all wf_segment segs" "plain_map variables"
  shows "render_prompt (template_of segs) variables = render_spec segs variables"
  using assms
proof (induction variables arbitrary: segs)
  case Nil
  then show ?case by (simp add: render_prompt_def re_sub_template)
next
  case (Cons kv variables)
  obtain k v where kv: "kv = (k, v)" by (cases kv)
  from Cons.prems(2) kv have bf: "brace_free k" "brace_free v" and pm: "plain_map variables"
    by (simp_all add: plain_map_def)
  have wf: "list_all wf_segment (map (fill_segment k v) segs)"
    using Cons.prems(1) bf(2) by (simp add: list_all_iff wf_fill_segment)
  have "render_prompt (template_of segs) (kv # variables)
      = render_prompt (py_replace (placeholder k) v (template_of segs)) variables"
    by (simp add: render_prompt_def kv)
  also have "\<dots> = render_prompt (template_of (map (fill_segment k v) segs)) variables"
    by (simp add: py_replace_template [OF bf(1) Cons.prems(1)])
  also have "\<dots> = render_spec (map (fill_segment k v) segs) variables"
    by (rule Cons.IH [OF wf pm])
  also have "\<dots> = render_spec segs (kv # variables)"
    by (simp add: render_spec_fill kv)
  finally show ?case .
qed

lemma brace_free_append [simp]: "brace_free (a @ b) = (brace_free a \<and> brace_free b)"
  by (simp add: brace_free_def)




lemma sublist_concat: "x \<in> set xs \<Longrightarrow> sublist x (concat xs)"
proof -
  assume "x \<in> set xs"
  then obtain as bs where "xs = as @ x # bs" by (auto dest: split_list)
  then have "concat xs = concat as @ x @ concat bs" by simp
  then show ?thesis unfolding sublist_def by blast
qed

lemma py_replace_self: "old \<noteq> [] \<Longrightarrow> py_replace old new old = new"
  using py_replace_hit [of old new "[]"] by (simp add: py_replace_Nil)



text \<open>
  Claim C5, amended. Rendering does scan substituted values again: the text with one
  key's placeholders filled in is what the keys that follow in the dict, and then the
  removal of the remaining placeholders, work on; for the template that is one
  placeholder, the output is the key's value with its placeholder tokens removed. A
  value without brace characters is not changed by this: it stands as it is in the
  output of a well-formed template rendered with a map without brace characters.
\<close>

theorem substituted_values_are_rescanned:
  "render_prompt t ((k, v) # variables) = render_prompt (py_replace (placeholder k) v t) variables
   \<and> render_prompt (placeholder k) [(k, v)] = re_sub_placeholders v
   \<and> (brace_free v \<longrightarrow> render_prompt (placeholder k) [(k, v)] = v)
   \<and> (list_all wf_segment segs \<and> plain_map variables \<and> Ph k \<in> set segs
        \<and> map_of variables k = Some v
      \<longrightarrow> sublist v (render_prompt (template_of segs) variables))"
proof -
  have a: "render_prompt t ((k, v) # variables) = render_prompt (py_replace (placeholder k) v t) variables"
    by (simp add: render_prompt_def)
  have "placeholder k \<noteq> []" by (simp add: placeholder_def)
  then have b: "render_prompt (placeholder k) [(k, v)] = re_sub_placeholders v"
    by (simp add: render_prompt_def py_replace_self)
  have c: "brace_free v \<longrightarrow> render_prompt (placeholder k) [(k, v)] = v"
    using b by (simp add: re_sub_brace_free)
  have d: "list_all wf_segment segs \<and> plain_map variables \<and> Ph k \<in> set segs
        \<and> map_of variables k = Some v
      \<longrightarrow> sublist v (render_prompt (template_of segs) variables)"
  proof (intro impI, elim conjE)
    assume h: "list_all wf_segment segs" "plain_map variables" "Ph k \<in> set segs"
      "map_of variables k = Some v"
    from h(4) have "render_segment_spec variables (Ph k) = v" by simp
    with h(3) have "v \<in> render_segment_spec variables ` set segs" by (rule rev_image_eqI [OF _ sym])
    then have "v \<in> set (map (render_segment_spec variables) segs)" by simp
    then have "sublist v (render_spec segs variables)"
      unfolding render_spec_def by (rule sublist_concat)
    with render_prompt_template [OF h(1,2)] show "sublist v (render_prompt (template_of segs) variables)"
      by simp
  qed
  from a b c d show ?thesis by blast
qed

text \<open>
  Claim C5, as stated, fails: the value \<^verbatim>\<open>{{b}}\<close> substituted for \<^verbatim>\<open>{{a}}\<close>
  is replaced in turn by the value of the later key \<^verbatim>\<open>b\<close>.
\<close>

theorem value_is_scanned_again:
  "render_prompt ''Hi {{a}}!'' [(''a'', ''{{b}}''), (''b'', ''X'')] = ''Hi X!''
   \<and> ''Hi X!'' \<noteq> ''Hi {{b}}!''"
  by code_simp


theorem substituted_values_are_rescanned_witness:
  "render_prompt ''{{a}}'' [(''a'', ''x{{zz}}y'')] = re_sub_placeholders ''x{{zz}}y''
   \<and> brace_free ''Ann''
   \<and> render_prompt ''{{name}}'' [(''name'', ''Ann'')] = ''Ann''
   \<and> list_all wf_segment [Lit ''Hi '', Ph ''name'', Lit ''!'']
   \<and> plain_map [(''name'', ''Ann'')]
   \<and> sublist ''Ann'' (render_prompt ''Hi {{name}}!'' [(''name'', ''Ann'')])"
proof -
  let ?segs = "[Lit ''Hi '', Ph ''name'', Lit ''!'']"
  let ?vars = "[(''name'', ''Ann'')]"
  have pa: "placeholder ''a'' = ''{{a}}''" by (simp add: placeholder_def)
  have pn: "placeholder ''name'' = ''{{name}}''" by (simp add: placeholder_def)
  have bf: "brace_free ''Ann''" by (simp add: not_brace_def brace_free_def)
  have w: "list_all wf_segment ?segs" by (simp add: not_brace_def brace_free_def)
  have p: "plain_map ?vars" by (simp add: plain_map_def not_brace_def brace_free_def)
  have t: "template_of ?segs = ''Hi {{name}}!''"
    by (simp add: template_of_def placeholder_def)
  have i: "Ph ''name'' \<in> set ?segs" by simp
  have m: "map_of ?vars ''name'' = Some ''Ann''" by simp
  note t1 = substituted_values_are_rescanned [of "''{{a}}''" "''a''" "''x{{zz}}y''" "[]" ?segs]
  note t2 = substituted_values_are_rescanned [of "''{{name}}''" "''name''" "''Ann''" ?vars ?segs]
  from t1 have "render_prompt (placeholder ''a'') [(''a'', ''x{{zz}}y'')] = re_sub_placeholders ''x{{zz}}y''"
    by blast
  then have a: "render_prompt ''{{a}}'' [(''a'', ''x{{zz}}y'')] = re_sub_placeholders ''x{{zz}}y''"
    by (simp only: pa)
  from t2 bf have "render_prompt (placeholder ''name'') ?vars = ''Ann''"
    by blast
  then have b: "render_prompt ''{{name}}'' ?vars = ''Ann''"
    by (simp only: pn)
  from t2 w p i m have "sublist ''Ann'' (render_prompt (template_of ?segs) ?vars)"
    by blast
  with t have c: "sublist ''Ann'' (render_prompt ''Hi {{name}}!'' ?vars)" by simp
  from a bf b w p c show ?thesis by blast
qed

end
